theory Spec2Isabelle
  imports Main "HOL-Library.Sublist"
begin

section \<open>Python values and their text rendering\<close>

text \<open>
  The three tools of \<^verbatim>\<open>tools.py\<close> exchange Python values with their caller: rows
  fetched from the database, the \<^verbatim>\<open>data\<close> argument of the CSV export, and the
  strings they return. The values are modelled by a datatype with the
  constructors the tools can tell apart (\<^verbatim>\<open>None\<close>, integers, strings, tuples
  and lists). A character stands for the code point of the same number
  (0 to 255). Floating point numbers and byte strings are not part of the
  value model.
\<close>

datatype pyval =
    PNone
  | PInt int
  | PStr string
  | PTuple "pyval list"
  | PList "pyval list"

text \<open>Truth value of an object, as tested by \<^verbatim>\<open>if x:\<close>.\<close>

fun truthy :: "pyval \<Rightarrow> bool" where
  "truthy PNone = False"
| "truthy (PInt i) = (i \<noteq> 0)"
| "truthy (PStr s) = (s \<noteq> [])"
| "truthy (PTuple vs) = (vs \<noteq> [])"
| "truthy (PList vs) = (vs \<noteq> [])"

text \<open>\<^verbatim>\<open>isinstance(x, list)\<close> and \<^verbatim>\<open>isinstance(x, (list, tuple))\<close>.\<close>

fun is_list :: "pyval \<Rightarrow> bool" where
  "is_list (PList vs) = True"
| "is_list v = False"


subsection \<open>Decimal rendering of integers\<close>

definition digit_char :: "nat \<Rightarrow> char" where
  "digit_char n = ''0123456789abcdef'' ! n"

fun nat_digits :: "nat \<Rightarrow> string" where
  "nat_digits n =
     (if n < 10 then [digit_char n] else nat_digits (n div 10) @ [digit_char (n mod 10)])"

declare nat_digits.simps [simp del]

definition int_str :: "int \<Rightarrow> string" where
  "int_str i = (if i < 0 then CHR ''-'' # nat_digits (nat (- i)) else nat_digits (nat i))"

subsection \<open>The \<^verbatim>\<open>repr\<close> of a string\<close>

text \<open>
  Python writes a string between single quotes, unless it contains a single
  quote and no double quote; the quote in use and the backslash are escaped
  with a backslash, tab, line feed and carriage return get their letter, and
  every other character that is not printable is written \<^verbatim>\<open>\xhh\<close>.
\<close>

abbreviation squote :: char where "squote \<equiv> CHR 0x27"
abbreviation dquote :: char where "dquote \<equiv> CHR 0x22"
abbreviation backslash :: char where "backslash \<equiv> CHR 0x5C"

definition printable :: "char \<Rightarrow> bool" where
  "printable c = (let n = (of_char c :: nat) in (32 \<le> n \<and> n < 127) \<or> (161 \<le> n \<and> n \<noteq> 173))"

definition hex2 :: "char \<Rightarrow> string" where
  "hex2 c = (let n = (of_char c :: nat) in [digit_char (n div 16), digit_char (n mod 16)])"

definition repr_quote :: "string \<Rightarrow> char" where
  "repr_quote s = (if squote \<in> set s \<and> dquote \<notin> set s then dquote else squote)"

definition repr_char :: "char \<Rightarrow> char \<Rightarrow> string" where
  "repr_char q c =
     (if c = q \<or> c = backslash then [backslash, c]
      else if c = CHR 0x09 then [backslash, CHR ''t'']
      else if c = CHR 0x0A then [backslash, CHR ''n'']
      else if c = CHR 0x0D then [backslash, CHR ''r'']
      else if \<not> printable c then backslash # CHR ''x'' # hex2 c
      else [c])"

definition str_repr :: "string \<Rightarrow> string" where
  "str_repr s = (let q = repr_quote s in q # concat (map (repr_char q) s) @ [q])"

subsection \<open>\<^verbatim>\<open>repr\<close> and \<^verbatim>\<open>str\<close> of a value\<close>

fun join :: "string \<Rightarrow> string list \<Rightarrow> string" where
  "join sep [] = []"
| "join sep [x] = x"
| "join sep (x # y # ys) = x @ sep @ join sep (y # ys)"

fun py_repr :: "pyval \<Rightarrow> string" where
  "py_repr PNone = ''None''"
| "py_repr (PInt i) = int_str i"
| "py_repr (PStr s) = str_repr s"
| "py_repr (PTuple vs) =
     ''('' @ join '', '' (map py_repr vs) @ (if length vs = 1 then '','' else []) @ '')''"
| "py_repr (PList vs) = ''['' @ join '', '' (map py_repr vs) @ '']''"

fun py_str :: "pyval \<Rightarrow> string" where
  "py_str (PStr s) = s"
| "py_str v = py_repr v"

subsection \<open>Reading a rendering\<close>

text \<open>
  What a reader of a rendering needs: which characters are decimal digits,
  the number a digit string or a hexadecimal digit stands for, whether a text
  goes on with a digit, and the text of the items after the first one of a
  tuple or list. They serve to show that a rendering determines the value.
\<close>

definition is_digit :: "char \<Rightarrow> bool" where
  "is_digit c = (c \<in> set ''0123456789'')"

definition digit_value :: "char \<Rightarrow> nat" where
  "digit_value c = of_char c - 48"

definition decimal_value :: "string \<Rightarrow> nat" where
  "decimal_value ds = foldl (\<lambda>a c. 10 * a + digit_value c) 0 ds"

definition no_digit_ahead :: "string \<Rightarrow> bool" where
  "no_digit_ahead r = (case r of [] \<Rightarrow> True | c # cs \<Rightarrow> \<not> is_digit c)"

definition hex_value :: "char \<Rightarrow> nat" where
  "hex_value c = (if is_digit c then of_char c - 48 else of_char c - 87)"

abbreviation more_items :: "pyval list \<Rightarrow> string" where
  "more_items vs \<equiv> concat (map (\<lambda>v. '', '' @ py_repr v) vs)"

section \<open>Exceptions\<close>

text \<open>
  An exception is a value; \<^verbatim>\<open>str(e)\<close> is the text it carries. Every subclass of
  \<^verbatim>\<open>sqlite3.Error\<close> is a \<open>Sqlite3_Error\<close>: the tools only ever ask whether an
  exception belongs to that family. \<open>Other_Exception\<close> is any exception
  derived from \<^verbatim>\<open>Exception\<close> that has no constructor of its own here.
\<close>

datatype exn =
    Sqlite3_Error string
  | IndexError string
  | TypeError string
  | OSError string
  | Other_Exception string

fun exn_text :: "exn \<Rightarrow> string" where
  "exn_text (Sqlite3_Error m) = m"
| "exn_text (IndexError m) = m"
| "exn_text (TypeError m) = m"
| "exn_text (OSError m) = m"
| "exn_text (Other_Exception m) = m"

fun is_sqlite3_Error :: "exn \<Rightarrow> bool" where
  "is_sqlite3_Error (Sqlite3_Error m) = True"
| "is_sqlite3_Error e = False"

text \<open>Subscription \<^verbatim>\<open>x[i]\<close> with a non-negative constant index.\<close>

fun py_getitem :: "pyval \<Rightarrow> nat \<Rightarrow> exn + pyval" where
  "py_getitem (PTuple vs) i =
     (if i < length vs then Inr (vs ! i) else Inl (IndexError ''tuple index out of range''))"
| "py_getitem (PList vs) i =
     (if i < length vs then Inr (vs ! i) else Inl (IndexError ''list index out of range''))"
| "py_getitem (PStr s) i =
     (if i < length s then Inr (PStr [s ! i]) else Inl (IndexError ''string index out of range''))"
| "py_getitem PNone i = Inl (TypeError (squote # ''NoneType'' @ squote # '' object is not subscriptable''))"
| "py_getitem (PInt n) i = Inl (TypeError (squote # ''int'' @ squote # '' object is not subscriptable''))"

text \<open>A list comprehension whose element expression may raise stops at the first exception.\<close>

fun comprehension :: "('a \<Rightarrow> exn + 'b) \<Rightarrow> 'a list \<Rightarrow> exn + 'b list" where
  "comprehension f [] = Inr []"
| "comprehension f (x # xs) =
     (case f x of
        Inl e \<Rightarrow> Inl e
      | Inr y \<Rightarrow> (case comprehension f xs of Inl e \<Rightarrow> Inl e | Inr ys \<Rightarrow> Inr (y # ys)))"

section \<open>The database connection\<close>

text \<open>
  The SQLite engine is not part of the repository, so it is a parameter of the
  model. A connection is a state of type \<open>'db\<close>. \<open>execute\<close> stands for
  \<^verbatim>\<open>cursor = conn.cursor(); cursor.execute(query)\<close>, two calls that sit in the
  same block of each tool: it yields the next state of the connection and
  either the exception raised or the cursor. A cursor holds its
  \<^verbatim>\<open>description\<close> (\<^verbatim>\<open>None\<close> for a statement without result columns) and what
  \<^verbatim>\<open>fetchall()\<close> gives: the rows, or an exception. \<open>commit\<close> is
  \<^verbatim>\<open>conn.commit()\<close>. Console output (\<^verbatim>\<open>print\<close>) is not modelled.
\<close>

record cursor =
  description :: pyval
  fetchall :: "exn + pyval list"

record 'db sqlite3 =
  execute :: "'db \<Rightarrow> string \<Rightarrow> 'db \<times> (exn + cursor)"
  commit :: "'db \<Rightarrow> 'db \<times> exn option"

section \<open>SqlExecutor: \<^verbatim>\<open>execute_sql\<close>\<close>

text \<open>
  The body of the \<^verbatim>\<open>try\<close> block: the value returned, or the exception raised
  inside it, with the state the connection is left in.
\<close>

definition execute_sql_try :: "'db sqlite3 \<Rightarrow> 'db \<Rightarrow> string \<Rightarrow> 'db \<times> (exn + string)" where
  "execute_sql_try E conn query =
     (case execute E conn query of
        (conn1, Inl e) \<Rightarrow> (conn1, Inl e)
      | (conn1, Inr cur) \<Rightarrow>
          if truthy (description cur) then
            (case fetchall cur of
               Inl e \<Rightarrow> (conn1, Inl e)
             | Inr rows \<Rightarrow> (conn1, Inr (py_str (PList rows))))
          else
            (case commit E conn1 of
               (conn2, Some e) \<Rightarrow> (conn2, Inl e)
             | (conn2, None) \<Rightarrow> (conn2, Inr ''Query executed successfully (no data returned).'')))"

text \<open>
  \<open>execute_sql\<close> returns the tool's result (\<open>Inr\<close> the string returned, \<open>Inl\<close>
  an exception that leaves the function), the connection and the history
  list after the call. The history is appended to before the \<^verbatim>\<open>try\<close>; the
  handler catches \<^verbatim>\<open>sqlite3.Error\<close> only.
\<close>

definition execute_sql ::
  "'db sqlite3 \<Rightarrow> 'db \<Rightarrow> string \<Rightarrow> string list option \<Rightarrow> (exn + string) \<times> 'db \<times> string list option"
where
  "execute_sql E conn query query_history =
     (let history = (case query_history of None \<Rightarrow> None | Some h \<Rightarrow> Some (h @ [query])) in
      case execute_sql_try E conn query of
        (conn', Inr s) \<Rightarrow> (Inr s, conn', history)
      | (conn', Inl e) \<Rightarrow>
          if is_sqlite3_Error e then (Inr (''Error: '' @ exn_text e), conn', history)
          else (Inl e, conn', history))"

text \<open>
  A session: the calls the reasoning loop makes one after the other on one
  connection and one history list. A call that raises does not end the
  session. The results are collected in call order.
\<close>

fun execute_sql_calls ::
  "'db sqlite3 \<Rightarrow> 'db \<Rightarrow> string list option \<Rightarrow> string list \<Rightarrow> (exn + string) list \<times> 'db \<times> string list option"
where
  "execute_sql_calls E conn history [] = ([], conn, history)"
| "execute_sql_calls E conn history (q # qs) =
     (case execute_sql E conn q history of
        (r, conn', history') \<Rightarrow>
          (case execute_sql_calls E conn' history' qs of
             (rs, conn'', history'') \<Rightarrow> (r # rs, conn'', history'')))"

section \<open>SchemaInspector: \<^verbatim>\<open>get_schema\<close>\<close>

text \<open>The test \<^verbatim>\<open>if table_name:\<close> on an optional string.\<close>

fun truthy_name :: "string option \<Rightarrow> bool" where
  "truthy_name None = False"
| "truthy_name (Some t) = (t \<noteq> [])"

text \<open>\<^verbatim>\<open>(col[1], col[2])\<close> and \<^verbatim>\<open>table[0]\<close>, the element expressions of the two comprehensions.\<close>

definition column_pair :: "pyval \<Rightarrow> exn + pyval" where
  "column_pair col =
     (case py_getitem col 1 of
        Inl e \<Rightarrow> Inl e
      | Inr name \<Rightarrow> (case py_getitem col 2 of Inl e \<Rightarrow> Inl e | Inr ty \<Rightarrow> Inr (PTuple [name, ty])))"

definition table_name_of :: "pyval \<Rightarrow> exn + pyval" where
  "table_name_of table = py_getitem table 0"

text \<open>The function has no \<^verbatim>\<open>try\<close>: every exception leaves it.\<close>

definition get_schema :: "'db sqlite3 \<Rightarrow> 'db \<Rightarrow> string option \<Rightarrow> (exn + string) \<times> 'db" where
  "get_schema E conn table_name =
     (if truthy_name table_name then
        (case execute E conn (''PRAGMA table_info('' @ the table_name @ '');'') of
           (conn1, Inl e) \<Rightarrow> (Inl e, conn1)
         | (conn1, Inr cur) \<Rightarrow>
             (case fetchall cur of
                Inl e \<Rightarrow> (Inl e, conn1)
              | Inr columns \<Rightarrow>
                  (case comprehension column_pair columns of
                     Inl e \<Rightarrow> (Inl e, conn1)
                   | Inr pairs \<Rightarrow> (Inr (py_str (PList pairs)), conn1))))
      else
        (case execute E conn ''SELECT name FROM sqlite_master WHERE type='table';'' of
           (conn1, Inl e) \<Rightarrow> (Inl e, conn1)
         | (conn1, Inr cur) \<Rightarrow>
             (case fetchall cur of
                Inl e \<Rightarrow> (Inl e, conn1)
              | Inr tables \<Rightarrow>
                  (case comprehension table_name_of tables of
                     Inl e \<Rightarrow> (Inl e, conn1)
                   | Inr names \<Rightarrow> (Inr (py_str (PList names)), conn1)))))"

section \<open>CsvExporter: \<^verbatim>\<open>save_data_to_csv\<close>\<close>

subsection \<open>String and path functions of the standard library\<close>

text \<open>\<^verbatim>\<open>str.lower\<close> on the code points 0 to 255, \<^verbatim>\<open>str.startswith\<close> and \<^verbatim>\<open>str.endswith\<close>.\<close>

definition lower_char :: "char \<Rightarrow> char" where
  "lower_char c =
     (let n = (of_char c :: nat) in
      if (65 \<le> n \<and> n \<le> 90) \<or> (192 \<le> n \<and> n \<le> 222 \<and> n \<noteq> 215) then char_of (n + 32) else c)"

definition py_lower :: "string \<Rightarrow> string" where
  "py_lower s = map lower_char s"

definition startswith :: "string \<Rightarrow> string \<Rightarrow> bool" where
  "startswith s p = (take (length p) s = p)"

definition endswith :: "string \<Rightarrow> string \<Rightarrow> bool" where
  "endswith s p = (length p \<le> length s \<and> drop (length s - length p) s = p)"

text \<open>\<^verbatim>\<open>os.path.join(a, b)\<close>, \<^verbatim>\<open>os.path.isabs\<close> and \<^verbatim>\<open>os.path.normpath\<close> of \<^verbatim>\<open>posixpath\<close>.\<close>

definition path_join :: "string \<Rightarrow> string \<Rightarrow> string" where
  "path_join a b =
     (if startswith b ''/'' then b
      else if a = [] \<or> endswith a ''/'' then a @ b
      else a @ ''/'' @ b)"

definition isabs :: "string \<Rightarrow> bool" where
  "isabs p = startswith p ''/''"

text \<open>
  \<^verbatim>\<open>os.path.dirname\<close>: the path up to its last slash, without trailing slashes
  unless it consists of slashes only. The tool does not call it; it says in
  which directory a path lies.
\<close>

definition dirname :: "string \<Rightarrow> string" where
  "dirname p =
     (let head = rev (dropWhile (\<lambda>c. c \<noteq> CHR ''/'') (rev p))
      in if head \<noteq> [] \<and> head \<noteq> replicate (length head) CHR ''/''
         then rev (dropWhile (\<lambda>c. c = CHR ''/'') (rev head))
         else head)"

fun split_on :: "char \<Rightarrow> string \<Rightarrow> string list" where
  "split_on d [] = [[]]"
| "split_on d (c # cs) =
     (if c = d then [] # split_on d cs
      else (case split_on d cs of [] \<Rightarrow> [[c]] | x # xs \<Rightarrow> (c # x) # xs))"

text \<open>The loop of \<^verbatim>\<open>normpath\<close> over the components; \<open>acc\<close> is \<^verbatim>\<open>new_comps\<close>.\<close>

fun norm_comps :: "bool \<Rightarrow> string list \<Rightarrow> string list \<Rightarrow> string list" where
  "norm_comps initial_slashes acc [] = acc"
| "norm_comps initial_slashes acc (c # cs) =
     (if c = [] \<or> c = ''.'' then norm_comps initial_slashes acc cs
      else if c \<noteq> ''..'' \<or> (\<not> initial_slashes \<and> acc = []) \<or> (acc \<noteq> [] \<and> last acc = ''..'')
        then norm_comps initial_slashes (acc @ [c]) cs
      else if acc \<noteq> [] then norm_comps initial_slashes (butlast acc) cs
      else norm_comps initial_slashes acc cs)"

definition normpath :: "string \<Rightarrow> string" where
  "normpath path =
     (if path = [] then ''.''
      else
        let initial_slashes =
              (if startswith path ''/'' then
                 (if startswith path ''//'' \<and> \<not> startswith path ''///'' then 2 else 1)
               else (0::nat));
            p = replicate initial_slashes CHR ''/'' @
                join ''/'' (norm_comps (initial_slashes \<noteq> 0) [] (split_on CHR ''/'' path))
        in if p = [] then ''.'' else p)"

subsection \<open>The writer of the \<^verbatim>\<open>csv\<close> module, default dialect\<close>

text \<open>
  A field that is \<^verbatim>\<open>None\<close> is written as the empty string, a string as it is,
  anything else as its \<^verbatim>\<open>str\<close>. A field is put between double quotes when it
  contains the delimiter, the quote character, a carriage return or a line
  feed, with every quote character doubled. A row of one empty field is
  written as two quote characters. Every row ends with carriage return and
  line feed.
\<close>

definition csv_field :: "pyval \<Rightarrow> string" where
  "csv_field v = (if v = PNone then [] else py_str v)"

definition csv_quote :: "string \<Rightarrow> string" where
  "csv_quote s =
     (if \<exists>c \<in> set s. c = CHR '','' \<or> c = dquote \<or> c = CHR 0x0D \<or> c = CHR 0x0A
      then dquote # concat (map (\<lambda>c. if c = dquote then [dquote, dquote] else [c]) s) @ [dquote]
      else s)"

definition csv_row :: "pyval list \<Rightarrow> string" where
  "csv_row row =
     (let r = join '','' (map (\<lambda>v. csv_quote (csv_field v)) row)
      in (if row \<noteq> [] \<and> r = [] then [dquote, dquote] else r) @ [CHR 0x0D, CHR 0x0A])"

definition csv_writerows :: "pyval list list \<Rightarrow> string" where
  "csv_writerows rows = concat (map csv_row rows)"

subsection \<open>The operating system\<close>

text \<open>
  The file system is a parameter too: a state \<open>'w\<close> with the three operations
  the tool calls. \<open>makedirs\<close> is \<^verbatim>\<open>os.makedirs(path, exist_ok=True)\<close>. \<open>write_text\<close>
  is the \<^verbatim>\<open>with open(path, 'w', newline='', encoding='utf-8')\<close> block, which
  writes the text it is given and closes the file. Each yields the next state
  and the exception raised, if any.
\<close>

record 'w os =
  getcwd :: "'w \<Rightarrow> exn + string"
  makedirs :: "'w \<Rightarrow> string \<Rightarrow> 'w \<times> exn option"
  write_text :: "'w \<Rightarrow> string \<Rightarrow> string \<Rightarrow> 'w \<times> exn option"

text \<open>\<^verbatim>\<open>os.path.abspath\<close> asks for the working directory when the path is relative.\<close>

definition abspath :: "'w os \<Rightarrow> 'w \<Rightarrow> string \<Rightarrow> exn + string" where
  "abspath S w path =
     (if isabs path then Inr (normpath path)
      else (case getcwd S w of Inl e \<Rightarrow> Inl e | Inr cwd \<Rightarrow> Inr (normpath (path_join cwd path))))"

subsection \<open>The tool\<close>

text \<open>\<^verbatim>\<open>list(row) if isinstance(row, (list, tuple)) else [row]\<close>.\<close>

fun row_of :: "pyval \<Rightarrow> pyval list" where
  "row_of (PList vs) = vs"
| "row_of (PTuple vs) = vs"
| "row_of v = [v]"

text \<open>\<^verbatim>\<open>if not filename.lower().endswith(".csv"): filename += ".csv"\<close>.\<close>

definition ensure_csv :: "string \<Rightarrow> string" where
  "ensure_csv filename = (if \<not> endswith (py_lower filename) ''.csv'' then filename @ ''.csv'' else filename)"

text \<open>The body of the \<^verbatim>\<open>try\<close> block, with the state of the file system it leaves.\<close>

definition save_data_to_csv_try :: "'w os \<Rightarrow> 'w \<Rightarrow> pyval \<Rightarrow> string \<Rightarrow> 'w \<times> (exn + string)" where
  "save_data_to_csv_try S w data filename =
     (case data of
        PList items \<Rightarrow>
          (let rows = map row_of items;
               filename = ensure_csv filename
           in case getcwd S w of
                Inl e \<Rightarrow> (w, Inl e)
              | Inr cwd \<Rightarrow>
                  (let base_dir = path_join cwd ''files'' in
                   case makedirs S w base_dir of
                     (w1, Some e) \<Rightarrow> (w1, Inl e)
                   | (w1, None) \<Rightarrow>
                       (let file_path = path_join base_dir filename in
                        case write_text S w1 file_path (csv_writerows rows) of
                          (w2, Some e) \<Rightarrow> (w2, Inl e)
                        | (w2, None) \<Rightarrow>
                            (case abspath S w2 file_path of
                               Inl e \<Rightarrow> (w2, Inl e)
                             | Inr abs_path \<Rightarrow> (w2, Inr (''Data saved successfully to: '' @ abs_path))))))
      | _ \<Rightarrow> (w, Inr ''Error: Data must be a list of tuples or lists.''))"

text \<open>The handler catches \<^verbatim>\<open>Exception\<close>, the base of every exception of the model.\<close>

definition save_data_to_csv :: "'w os \<Rightarrow> 'w \<Rightarrow> pyval \<Rightarrow> string \<Rightarrow> (exn + string) \<times> 'w" where
  "save_data_to_csv S w data filename =
     (case save_data_to_csv_try S w data filename of
        (w', Inr s) \<Rightarrow> (Inr s, w')
      | (w', Inl e) \<Rightarrow> (Inr (''Error saving CSV: '' @ exn_text e), w'))"

section \<open>A small database and a small file system to run the tools on\<close>

text \<open>
  The theorems below hold for every engine and every operating system. To
  run the tools on concrete inputs, here is a connection with one table
  \<^verbatim>\<open>users(id INTEGER PRIMARY KEY, name TEXT)\<close> that answers the few statements
  listed as SQLite does (table names match in any letter case, the empty
  text is accepted and does nothing). It is an example, not SQLite: any
  other text is answered like a text whose first word is no SQL keyword. \<open>pending\<close> holds the rows as the connection sees
  them, \<open>durable\<close> the rows of the last commit; \<open>busy\<close> makes the commit fail.
\<close>

record users_db =
  pending :: "pyval list"
  durable :: "pyval list"
  busy :: bool

definition column_descr :: "string \<Rightarrow> pyval" where
  "column_descr name = PTuple [PStr name, PNone, PNone, PNone, PNone, PNone, PNone]"

definition table_info_descr :: pyval where
  "table_info_descr =
     PTuple (map column_descr [''cid'', ''name'', ''type'', ''notnull'', ''dflt_value'', ''pk''])"

definition users_execute :: "users_db \<Rightarrow> string \<Rightarrow> users_db \<times> (exn + cursor)" where
  "users_execute db q =
     (if q = ''SELECT id, name FROM users'' then
        (db, Inr \<lparr>description = PTuple [column_descr ''id'', column_descr ''name''],
                  fetchall = Inr (pending db)\<rparr>)
      else if q = ''INSERT INTO users VALUES (3, 'Carol')'' then
        (db\<lparr>pending := pending db @ [PTuple [PInt 3, PStr ''Carol'']]\<rparr>,
         Inr \<lparr>description = PNone, fetchall = Inr []\<rparr>)
      else if q = ''PRAGMA table_info(users);'' \<or> q = ''PRAGMA table_info(USERS);'' then
        (db, Inr \<lparr>description = table_info_descr,
                  fetchall = Inr [PTuple [PInt 0, PStr ''id'', PStr ''INTEGER'', PInt 0, PNone, PInt 1],
                                  PTuple [PInt 1, PStr ''name'', PStr ''TEXT'', PInt 0, PNone, PInt 0]]\<rparr>)
      else if q = ''PRAGMA table_info(orders);'' then
        (db, Inr \<lparr>description = table_info_descr, fetchall = Inr []\<rparr>)
      else if q = ''SELECT name FROM sqlite_master WHERE type='table';'' then
        (db, Inr \<lparr>description = PTuple [column_descr ''name''],
                  fetchall = Inr [PTuple [PStr ''users'']]\<rparr>)
      else if q = ''PRAGMA table_info(a b);'' then
        (db, Inl (Sqlite3_Error (''near '' @ dquote # ''b'' @ dquote # '': syntax error'')))
      else if q = [] then
        (db, Inr \<lparr>description = PNone, fetchall = Inr []\<rparr>)
      else
        (db, Inl (Sqlite3_Error
           (''near '' @ dquote # takeWhile (\<lambda>c. c \<noteq> CHR '' '') q @ dquote # '': syntax error''))))"

definition users_commit :: "users_db \<Rightarrow> users_db \<times> exn option" where
  "users_commit db =
     (if busy db then (db, Some (Sqlite3_Error ''database is locked''))
      else (db\<lparr>durable := pending db\<rparr>, None))"

definition users_engine :: "users_db sqlite3" where
  "users_engine = \<lparr>execute = users_execute, commit = users_commit\<rparr>"

definition two_users :: users_db where
  "two_users =
     \<lparr>pending = [PTuple [PInt 1, PStr ''Alice''], PTuple [PInt 2, PStr ''Bob'']],
      durable = [PTuple [PInt 1, PStr ''Alice''], PTuple [PInt 2, PStr ''Bob'']],
      busy = False\<rparr>"

text \<open>
  A file system with directories and text files under their path as written.
  A directory cannot be made where a file of that name exists, and a file
  cannot be written into a directory that does not exist.
\<close>

record files_fs =
  workdir :: string
  dirs :: "string list"
  files :: "(string \<times> string) list"

definition fs_makedirs :: "files_fs \<Rightarrow> string \<Rightarrow> files_fs \<times> exn option" where
  "fs_makedirs w p =
     (if p \<in> set (dirs w) then (w, None)
      else if p \<in> fst ` set (files w)
        then (w, Some (OSError (''[Errno 17] File exists: '' @ str_repr p)))
      else (w\<lparr>dirs := dirs w @ [p]\<rparr>, None))"

definition fs_write_text :: "files_fs \<Rightarrow> string \<Rightarrow> string \<Rightarrow> files_fs \<times> exn option" where
  "fs_write_text w p text =
     (if dirname p \<notin> set (dirs w)
        then (w, Some (OSError (''[Errno 2] No such file or directory: '' @ str_repr p)))
      else (w\<lparr>files := (p, text) # filter (\<lambda>f. fst f \<noteq> p) (files w)\<rparr>, None))"

definition files_os :: "files_fs os" where
  "files_os = \<lparr>getcwd = (\<lambda>w. Inr (workdir w)), makedirs = fs_makedirs, write_text = fs_write_text\<rparr>"

definition work_fs :: files_fs where
  "work_fs = \<lparr>workdir = ''/work'', dirs = [''/'', ''/work'', ''/tmp''], files = []\<rparr>"

section \<open>A rendering determines the value\<close>

text \<open>
  \<^verbatim>\<open>repr\<close> is injective on the values of the model: the text of a number ends
  where the digits end, a string ends at the first quote that is not escaped,
  and a tuple or list at its closing bracket. So the rows can be read back
  from the string that \<open>execute_sql\<close> returns.
\<close>

lemma nat_digits_nonempty: "nat_digits n \<noteq> []"
  by (subst nat_digits.simps) simp




lemma below_ten: "k < 10 \<Longrightarrow> k \<in> {0, 1, 2, 3, 4, 5, 6, 7, 8, 9::nat}"
  by auto

lemma digit_char_digit: "k < 10 \<Longrightarrow> is_digit (digit_char k)"
  by (drule below_ten) (auto simp: digit_char_def is_digit_def)

lemma digit_value_digit_char: "k < 10 \<Longrightarrow> digit_value (digit_char k) = k"
  by (drule below_ten) (auto simp: digit_char_def digit_value_def)

lemma nat_digits_digits: "\<forall>c \<in> set (nat_digits n). is_digit c"
proof (induction n rule: nat_digits.induct)
  case (1 n)
  show ?case
  proof (cases "n < 10")
    case True
    then show ?thesis by (subst nat_digits.simps) (simp add: digit_char_digit)
  next
    case False
    with 1 show ?thesis by (subst nat_digits.simps) (simp add: digit_char_digit)
  qed
qed

lemma decimal_value_nat_digits: "decimal_value (nat_digits n) = n"
proof (induction n rule: nat_digits.induct)
  case (1 n)
  show ?case
  proof (cases "n < 10")
    case True
    then show ?thesis
      by (subst nat_digits.simps) (simp add: decimal_value_def digit_value_digit_char)
  next
    case False
    with 1 have "decimal_value (nat_digits (n div 10)) = n div 10" by simp
    with False show ?thesis
      by (subst nat_digits.simps) (simp add: decimal_value_def digit_value_digit_char)
  qed
qed

lemma nat_digits_inj: "nat_digits n = nat_digits m \<Longrightarrow> n = m"
  by (metis decimal_value_nat_digits)

lemma digits_split:
  assumes "xs @ r = ys @ r'"
    and "\<forall>c \<in> set xs. is_digit c" and "\<forall>c \<in> set ys. is_digit c"
    and "no_digit_ahead r" and "no_digit_ahead r'"
  shows "xs = ys \<and> r = r'"
proof -
  have tw: "takeWhile is_digit (zs @ t) = zs" if "\<forall>c \<in> set zs. is_digit c" "no_digit_ahead t" for zs t
    using that by (cases t) (simp_all add: takeWhile_append2 no_digit_ahead_def)
  from assms(2,4) have "takeWhile is_digit (xs @ r) = xs" by (rule tw)
  moreover from assms(3,5) have "takeWhile is_digit (ys @ r') = ys" by (rule tw)
  ultimately have "xs = ys" using assms(1) by simp
  with assms(1) show ?thesis by simp
qed

lemma int_str_split:
  assumes "int_str i @ r = int_str j @ r'" and "no_digit_ahead r" and "no_digit_ahead r'"
  shows "i = j \<and> r = r'"
proof -
  have minus: "\<not> is_digit CHR ''-''" by (simp add: is_digit_def)
  have hd_digit: "is_digit (hd (nat_digits n))" for n
    using nat_digits_digits [of n] by (cases "nat_digits n") (simp_all add: nat_digits_nonempty)
  have nonneg: False if "CHR ''-'' # nat_digits n @ t = nat_digits m @ t'" for n m t t'
  proof -
    obtain c cs where m: "nat_digits m = c # cs"
      by (cases "nat_digits m") (simp_all add: nat_digits_nonempty)
    with that have "c = CHR ''-''" by simp
    with hd_digit [of m] m minus show False by simp
  qed
  show ?thesis
  proof (cases "i < 0")
    case True
    note i = True
    show ?thesis
    proof (cases "j < 0")
      case True
      with i assms(1) have "nat_digits (nat (- i)) @ r = nat_digits (nat (- j)) @ r'"
        by (simp add: int_str_def)
      with assms(2,3) have "nat_digits (nat (- i)) = nat_digits (nat (- j)) \<and> r = r'"
        by (intro digits_split) (simp_all add: nat_digits_digits)
      with i True show ?thesis by (auto dest: nat_digits_inj)
    next
      case False
      with i assms(1) nonneg show ?thesis by (simp add: int_str_def) blast
    qed
  next
    case False
    note i = False
    show ?thesis
    proof (cases "j < 0")
      case True
      with i assms(1) nonneg [of "nat (- j)" r' "nat i" r] show ?thesis
        by (simp add: int_str_def)
    next
      case False
      with i assms(1) have "nat_digits (nat i) @ r = nat_digits (nat j) @ r'"
        by (simp add: int_str_def)
      with assms(2,3) have "nat_digits (nat i) = nat_digits (nat j) \<and> r = r'"
        by (intro digits_split) (simp_all add: nat_digits_digits)
      with i False show ?thesis by (auto dest: nat_digits_inj)
    qed
  qed
qed

lemma below_sixteen:
  "k < 16 \<Longrightarrow> k \<in> {0, 1, 2, 3, 4, 5, 6, 7, 8, 9, 10, 11, 12, 13, 14, 15::nat}"
  by simp arith

lemma hex_value_digit_char: "k < 16 \<Longrightarrow> hex_value (digit_char k) = k"
  by (drule below_sixteen) (auto simp: digit_char_def hex_value_def is_digit_def)

lemma hex2_inj:
  assumes "hex2 c = hex2 c'"
  shows "c = c'"
proof -
  let ?n = "of_char c :: nat" and ?m = "of_char c' :: nat"
  from assms have "digit_char (?n div 16) = digit_char (?m div 16)"
    and "digit_char (?n mod 16) = digit_char (?m mod 16)"
    by (simp_all add: hex2_def Let_def)
  then have "hex_value (digit_char (?n div 16)) = hex_value (digit_char (?m div 16))"
    and "hex_value (digit_char (?n mod 16)) = hex_value (digit_char (?m mod 16))"
    by simp_all
  moreover have "?n < 256" "?m < 256" by simp_all
  then have "?n div 16 < 16" "?m div 16 < 16" by arith+
  ultimately have "?n div 16 = ?m div 16" and "?n mod 16 = ?m mod 16"
    by (simp_all add: hex_value_digit_char)
  then have "?n = ?m" by (metis div_mult_mod_eq)
  then show ?thesis by simp
qed

lemma hex2_length: "length (hex2 c) = 2"
  by (simp add: hex2_def Let_def)

lemma hex2_split: "hex2 c @ X = hex2 c' @ Y \<Longrightarrow> c = c' \<and> X = Y"
  using hex2_inj [of c c'] by (simp add: hex2_length)

lemma repr_char_split:
  assumes "q = squote \<or> q = dquote"
    and "repr_char q c @ X = repr_char q c' @ Y"
  shows "c = c' \<and> X = Y"
  using assms
  by (auto simp: repr_char_def dest: hex2_split split: if_splits)

lemma repr_char_not_quote:
  assumes "q = squote \<or> q = dquote"
  shows "repr_char q c @ X \<noteq> q # Y"
  using assms by (auto simp: repr_char_def split: if_splits)

lemma repr_quote_cases: "repr_quote s = squote \<or> repr_quote s = dquote"
  by (simp add: repr_quote_def)

lemma escaped_split:
  assumes "q = squote \<or> q = dquote"
    and "concat (map (repr_char q) s) @ q # r = concat (map (repr_char q) s') @ q # r'"
  shows "s = s' \<and> r = r'"
  using assms(2)
proof (induction s arbitrary: s')
  case Nil
  show ?case
  proof (cases s')
    case Nil
    with Nil.prems show ?thesis by simp
  next
    case (Cons c cs)
    with Nil.prems repr_char_not_quote [OF assms(1), of c "concat (map (repr_char q) cs) @ q # r'" r]
    show ?thesis by simp
  qed
next
  case (Cons c cs)
  show ?case
  proof (cases s')
    case Nil
    with Cons.prems repr_char_not_quote [OF assms(1), of c "concat (map (repr_char q) cs) @ q # r" r']
    show ?thesis by simp
  next
    case (Cons c' cs')
    with Cons.prems
    have "repr_char q c @ (concat (map (repr_char q) cs) @ q # r)
        = repr_char q c' @ (concat (map (repr_char q) cs') @ q # r')"
      by simp
    from repr_char_split [OF assms(1) this]
    have "c = c'" and "concat (map (repr_char q) cs) @ q # r = concat (map (repr_char q) cs') @ q # r'"
      by simp_all
    with Cons.IH [of cs'] Cons show ?thesis by simp
  qed
qed

lemma str_repr_split:
  assumes "str_repr s @ r = str_repr s' @ r'"
  shows "s = s' \<and> r = r'"
proof -
  from assms have q: "repr_quote s = repr_quote s'"
    by (simp add: str_repr_def Let_def)
  with assms have "concat (map (repr_char (repr_quote s)) s) @ repr_quote s # r
      = concat (map (repr_char (repr_quote s)) s') @ repr_quote s # r'"
    by (simp add: str_repr_def Let_def)
  with repr_quote_cases [of s] show ?thesis by (rule escaped_split)
qed

lemma int_str_head: "int_str i @ r = c # t \<Longrightarrow> c = CHR ''-'' \<or> is_digit c"
proof -
  assume a: "int_str i @ r = c # t"
  obtain d ds where n: "nat_digits (nat \<bar>i\<bar>) = d # ds"
    by (cases "nat_digits (nat \<bar>i\<bar>)") (simp_all add: nat_digits_nonempty)
  with nat_digits_digits [of "nat \<bar>i\<bar>"] have "is_digit d" by simp
  with a n show ?thesis
    by (cases "i < 0") (simp_all add: int_str_def abs_if)
qed

lemma py_repr_head:
  assumes "py_repr v @ r = c # t"
  shows "c = CHR ''N'' \<or> c = CHR ''-'' \<or> is_digit c \<or> c = squote \<or> c = dquote
           \<or> c = CHR ''('' \<or> c = CHR ''[''"
proof (cases v)
  case (PInt i)
  with assms int_str_head [of i r c t] show ?thesis by auto
next
  case (PStr s)
  with assms repr_quote_cases [of s] show ?thesis by (auto simp: str_repr_def Let_def)
qed (use assms in auto)

lemma py_repr_opens:
  "py_repr v @ r = c # t \<Longrightarrow> c \<noteq> CHR '')'' \<and> c \<noteq> CHR '']'' \<and> c \<noteq> CHR '',''"
  using py_repr_head [of v r c t] by (auto simp: is_digit_def)

lemma py_repr_opens_sym:
  "c # t = py_repr v @ r \<Longrightarrow> c \<noteq> CHR '')'' \<and> c \<noteq> CHR '']'' \<and> c \<noteq> CHR '',''"
  using py_repr_opens [of v r c t] by simp

lemma join_Cons: "join sep (x # xs) = x @ concat (map (\<lambda>y. sep @ y) xs)"
  by (induction xs arbitrary: x) simp_all

lemma more_items_ahead: "c = CHR '')'' \<or> c = CHR '']'' \<Longrightarrow> no_digit_ahead (more_items vs @ c # r)"
  by (cases vs) (auto simp: no_digit_ahead_def is_digit_def)

lemma tuple_repr_Cons:
  "py_repr (PTuple (v # vs)) @ r
     = CHR ''('' # py_repr v @ (more_items vs @ (if vs = [] then '','' else []) @ CHR '')'' # r)"
  by (simp add: join_Cons comp_def)

lemma list_repr_Cons:
  "py_repr (PList (v # vs)) @ r = CHR ''['' # py_repr v @ (more_items vs @ CHR '']'' # r)"
  by (simp add: join_Cons comp_def)

lemma more_items_split:
  assumes c: "c = CHR '')'' \<or> c = CHR '']''"
    and elem: "\<And>v w r r'. v \<in> set vs \<Longrightarrow> py_repr v @ r = py_repr w @ r' \<Longrightarrow>
                 no_digit_ahead r \<Longrightarrow> no_digit_ahead r' \<Longrightarrow> v = w \<and> r = r'"
    and eq: "more_items vs @ c # r = more_items ws @ c # r'"
  shows "vs = ws \<and> r = r'"
  using elem eq
proof (induction vs arbitrary: ws)
  case Nil
  with c show ?case by (cases ws) auto
next
  case (Cons v vs)
  show ?case
  proof (cases ws)
    case Nil
    with Cons.prems(2) c show ?thesis by auto
  next
    case (Cons w ws')
    with Cons.prems(2)
    have "py_repr v @ (more_items vs @ c # r) = py_repr w @ (more_items ws' @ c # r')"
      by simp
    with Cons.prems(1) [of v] more_items_ahead [OF c]
    have "v = w" and rest: "more_items vs @ c # r = more_items ws' @ c # r'"
      by auto
    have "vs = ws' \<and> r = r'"
    proof (rule Cons.IH)
      fix u w r r'
      assume "u \<in> set vs" and "py_repr u @ r = py_repr w @ r'"
        and "no_digit_ahead r" and "no_digit_ahead r'"
      then show "u = w \<and> r = r'"
        using Cons.prems(1) [of u r w r'] by simp
    next
      show "more_items vs @ c # r = more_items ws' @ c # r'" by (rule rest)
    qed
    with \<open>v = w\<close> Cons show ?thesis by simp
  qed
qed

lemma py_repr_split:
  "py_repr v @ r = py_repr w @ r' \<Longrightarrow> no_digit_ahead r \<Longrightarrow> no_digit_ahead r' \<Longrightarrow> v = w \<and> r = r'"
proof (induction v arbitrary: w r r')
  case PNone
  show ?case
  proof (cases w)
    case (PInt j)
    with PNone.prems(1) int_str_head [OF sym, of "CHR ''N''" _ j r'] show ?thesis
      by (auto simp: is_digit_def)
  next
    case (PStr s)
    with PNone.prems(1) repr_quote_cases [of s] show ?thesis
      by (auto simp: str_repr_def Let_def)
  qed (use PNone.prems(1) in auto)
next
  case (PInt i)
  show ?case
  proof (cases w)
    case (PInt j)
    with PInt.prems int_str_split [of i r j r'] show ?thesis by simp
  next
    case PNone
    with PInt.prems(1) int_str_head [of i r "CHR ''N''"] show ?thesis
      by (simp add: is_digit_def)
  next
    case (PStr s)
    with PInt.prems(1) int_str_head [of i r "repr_quote s"] repr_quote_cases [of s] show ?thesis
      by (auto simp: is_digit_def str_repr_def Let_def)
  next
    case (PTuple ws)
    with PInt.prems(1) int_str_head [of i r "CHR ''(''"] show ?thesis
      by (simp add: is_digit_def)
  next
    case (PList ws)
    with PInt.prems(1) int_str_head [of i r "CHR ''[''"] show ?thesis
      by (simp add: is_digit_def)
  qed
next
  case (PStr s)
  show ?case
  proof (cases w)
    case (PStr s')
    with PStr.prems(1) str_repr_split [of s r s' r'] show ?thesis by simp
  next
    case (PInt j)
    with PStr.prems(1) int_str_head [OF sym, of "repr_quote s" _ j r'] repr_quote_cases [of s] show ?thesis
      by (auto simp: is_digit_def str_repr_def Let_def)
  qed (use PStr.prems(1) repr_quote_cases [of s] in \<open>auto simp: str_repr_def Let_def\<close>)
next
  case (PTuple vs)
  show ?case
  proof (cases w)
    case (PTuple ws)
    show ?thesis
    proof (cases vs)
      case Nil
      with PTuple PTuple.prems(1) show ?thesis
        by (cases ws) (auto simp: join_Cons dest: py_repr_opens py_repr_opens_sym)
    next
      case (Cons v1 vs1)
      note vs = Cons
      show ?thesis
      proof (cases ws)
        case Nil
        with vs PTuple PTuple.prems(1) show ?thesis
          by (auto simp: join_Cons dest: py_repr_opens py_repr_opens_sym)
      next
        case (Cons w1 ws1)
        let ?tail = "\<lambda>xs t. more_items xs @ (if xs = [] then '','' else []) @ CHR '')'' # t"
        from vs Cons PTuple PTuple.prems(1)
        have "py_repr (PTuple (v1 # vs1)) @ r = py_repr (PTuple (w1 # ws1)) @ r'"
          by (simp only:)
        then have eq: "py_repr v1 @ ?tail vs1 r = py_repr w1 @ ?tail ws1 r'"
          unfolding tuple_repr_Cons by (simp only: list.inject simp_thms)
        have ahead: "no_digit_ahead (?tail xs t)" for xs t
          by (cases xs) (auto simp: no_digit_ahead_def is_digit_def)
        from PTuple.IH [of v1 "?tail vs1 r" w1 "?tail ws1 r'"] vs eq ahead
        have v1: "v1 = w1" and tail: "?tail vs1 r = ?tail ws1 r'"
          by simp_all
        have "vs1 = ws1 \<and> r = r'"
        proof (cases "vs1 = []")
          case True
          with tail show ?thesis by (cases ws1) auto
        next
          case False
          note vs1 = False
          show ?thesis
          proof (cases "ws1 = []")
            case True
            with tail show ?thesis by (cases vs1) auto
          next
            case False
            with vs1 tail have more: "more_items vs1 @ CHR '')'' # r = more_items ws1 @ CHR '')'' # r'"
              by simp
            show ?thesis
            proof (rule more_items_split [where c = "CHR '')''"])
              show "CHR '')'' = CHR '')'' \<or> CHR '')'' = CHR '']''" by simp
            next
              fix u w r r'
              assume "u \<in> set vs1" and "py_repr u @ r = py_repr w @ r'"
                and "no_digit_ahead r" and "no_digit_ahead r'"
              with vs show "u = w \<and> r = r'"
                using PTuple.IH [of u r w r'] by simp
            next
              show "more_items vs1 @ CHR '')'' # r = more_items ws1 @ CHR '')'' # r'"
                by (rule more)
            qed
          qed
        qed
        with v1 vs Cons PTuple show ?thesis by simp
      qed
    qed
  next
    case (PInt j)
    with PTuple.prems(1) int_str_head [OF sym, of "CHR ''(''" _ j r'] show ?thesis
      by (auto simp: is_digit_def)
  next
    case (PStr s)
    with PTuple.prems(1) repr_quote_cases [of s] show ?thesis
      by (auto simp: str_repr_def Let_def)
  qed (use PTuple.prems(1) in auto)
next
  case (PList vs)
  show ?case
  proof (cases w)
    case (PList ws)
    show ?thesis
    proof (cases vs)
      case Nil
      with PList PList.prems(1) show ?thesis
        by (cases ws) (auto simp: join_Cons dest: py_repr_opens py_repr_opens_sym)
    next
      case (Cons v1 vs1)
      note vs = Cons
      show ?thesis
      proof (cases ws)
        case Nil
        with vs PList PList.prems(1) show ?thesis
          by (auto simp: join_Cons dest: py_repr_opens py_repr_opens_sym)
      next
        case (Cons w1 ws1)
        from vs Cons PList PList.prems(1)
        have "py_repr (PList (v1 # vs1)) @ r = py_repr (PList (w1 # ws1)) @ r'"
          by (simp only:)
        then have eq: "py_repr v1 @ (more_items vs1 @ CHR '']'' # r)
                = py_repr w1 @ (more_items ws1 @ CHR '']'' # r')"
          unfolding list_repr_Cons by (simp only: list.inject simp_thms)
        from PList.IH [of v1 "more_items vs1 @ CHR '']'' # r" w1 "more_items ws1 @ CHR '']'' # r'"]
          vs eq more_items_ahead [of "CHR '']''"]
        have v1: "v1 = w1" and tail: "more_items vs1 @ CHR '']'' # r = more_items ws1 @ CHR '']'' # r'"
          by simp_all
        have "vs1 = ws1 \<and> r = r'"
        proof (rule more_items_split [where c = "CHR '']''"])
          show "CHR '']'' = CHR '')'' \<or> CHR '']'' = CHR '']''" by simp
        next
          fix u w r r'
          assume "u \<in> set vs1" and "py_repr u @ r = py_repr w @ r'"
            and "no_digit_ahead r" and "no_digit_ahead r'"
          with vs show "u = w \<and> r = r'"
            using PList.IH [of u r w r'] by simp
        next
          show "more_items vs1 @ CHR '']'' # r = more_items ws1 @ CHR '']'' # r'"
            by (rule tail)
        qed
        with v1 vs Cons PList show ?thesis by simp
      qed
    qed
  next
    case (PInt j)
    with PList.prems(1) int_str_head [OF sym, of "CHR ''[''" _ j r'] show ?thesis
      by (auto simp: is_digit_def)
  next
    case (PStr s)
    with PList.prems(1) repr_quote_cases [of s] show ?thesis
      by (auto simp: str_repr_def Let_def)
  qed (use PList.prems(1) in auto)
qed

lemma py_repr_inj: "py_repr v = py_repr w \<Longrightarrow> v = w"
  using py_repr_split [of v "[]" w "[]"] by (simp add: no_digit_ahead_def)

section \<open>Properties of \<^verbatim>\<open>execute_sql\<close>\<close>

lemmas users_simps = users_engine_def users_execute_def users_commit_def two_users_def
  column_descr_def table_info_descr_def

text \<open>
  Claim C1. Whenever the engine raises a database error with text \<open>m\<close>, while
  executing the statement (a malformed SQL text is refused there), while
  fetching the rows, or while committing, \<open>execute_sql\<close> returns the string
  \<^verbatim>\<open>Error: \<close> followed by \<open>m\<close>; and no database error ever leaves the function
  as an exception.
\<close>

theorem execute_sql_database_error:
  "(snd (execute E conn query) = Inl (Sqlite3_Error m)
      \<or> (\<exists>cur. snd (execute E conn query) = Inr cur \<and> truthy (description cur)
             \<and> fetchall cur = Inl (Sqlite3_Error m))
      \<or> (\<exists>cur. snd (execute E conn query) = Inr cur \<and> \<not> truthy (description cur)
             \<and> snd (commit E (fst (execute E conn query))) = Some (Sqlite3_Error m))
    \<longrightarrow> fst (execute_sql E conn query history) = Inr (''Error: '' @ m))
   \<and> (\<forall>e. fst (execute_sql E conn query history) = Inl e \<longrightarrow> \<not> is_sqlite3_Error e)"
proof -
  obtain conn1 r where ex: "execute E conn query = (conn1, r)"
    by (cases "execute E conn query")
  obtain conn2 c where co: "commit E conn1 = (conn2, c)"
    by (cases "commit E conn1")
  from ex co have caught: "fst (execute_sql E conn query history) = Inr (''Error: '' @ m)"
    if "snd (execute E conn query) = Inl (Sqlite3_Error m)
      \<or> (\<exists>cur. snd (execute E conn query) = Inr cur \<and> truthy (description cur)
             \<and> fetchall cur = Inl (Sqlite3_Error m))
      \<or> (\<exists>cur. snd (execute E conn query) = Inr cur \<and> \<not> truthy (description cur)
             \<and> snd (commit E (fst (execute E conn query))) = Some (Sqlite3_Error m))"
    using that by (auto simp: execute_sql_def execute_sql_try_def Let_def)
  obtain conn' t where body: "execute_sql_try E conn query = (conn', t)"
    by (cases "execute_sql_try E conn query")
  have escapes: "\<not> is_sqlite3_Error e" if "fst (execute_sql E conn query history) = Inl e" for e
    using that body by (cases t) (auto simp: execute_sql_def Let_def split: if_splits)
  from caught escapes show ?thesis by blast
qed

theorem execute_sql_database_error_witness:
  "snd (execute users_engine two_users ''SELEC id FROM users'')
     = Inl (Sqlite3_Error (''near '' @ dquote # ''SELEC'' @ dquote # '': syntax error''))
   \<and> fst (execute_sql users_engine two_users ''SELEC id FROM users'' None)
       = Inr (''Error: near '' @ dquote # ''SELEC'' @ dquote # '': syntax error'')"
proof -
  have a: "snd (execute users_engine two_users ''SELEC id FROM users'')
      = Inl (Sqlite3_Error (''near '' @ dquote # ''SELEC'' @ dquote # '': syntax error''))"
    by (simp add: users_engine_def users_execute_def)
  from conjunct1 [OF execute_sql_database_error
      [of users_engine two_users "''SELEC id FROM users''"
          "''near '' @ dquote # ''SELEC'' @ dquote # '': syntax error''" None]] a
  show ?thesis by simp
qed

text \<open>The history after one call, whatever the call does.\<close>

lemma execute_sql_history:
  "snd (snd (execute_sql E conn q history)) = map_option (\<lambda>h. h @ [q]) history"
  by (cases "execute_sql_try E conn q")
     (auto simp: execute_sql_def Let_def split: option.splits sum.splits)

lemma execute_sql_calls_history:
  "snd (snd (execute_sql_calls E conn (Some h) qs)) = Some (h @ qs)"
proof (induction qs arbitrary: conn h)
  case Nil
  show ?case by simp
next
  case (Cons q qs)
  obtain r conn' h' where one: "execute_sql E conn q (Some h) = (r, conn', h')"
    by (cases "execute_sql E conn q (Some h)") auto
  with execute_sql_history [of E conn q "Some h"] have h': "h' = Some (h @ [q])"
    by simp
  obtain rs conn'' h'' where rest: "execute_sql_calls E conn' (Some (h @ [q])) qs = (rs, conn'', h'')"
    by (cases "execute_sql_calls E conn' (Some (h @ [q])) qs") auto
  with Cons.IH [of conn' "h @ [q]"] have "h'' = Some (h @ q # qs)" by simp
  with one h' rest show ?case by simp
qed

lemma execute_sql_calls_length:
  "length (fst (execute_sql_calls E conn history qs)) = length qs"
proof (induction qs arbitrary: conn history)
  case Nil
  show ?case by simp
next
  case (Cons q qs)
  obtain r conn' h' where one: "execute_sql E conn q history = (r, conn', h')"
    by (cases "execute_sql E conn q history") auto
  obtain rs conn'' h'' where rest: "execute_sql_calls E conn' h' qs = (rs, conn'', h'')"
    by (cases "execute_sql_calls E conn' h' qs") auto
  with Cons.IH [of conn' h'] have "length rs = length qs" by simp
  with one rest show ?case by simp
qed

text \<open>
  Claim C3. One call appends its query to the shared history whatever the
  engine does with it, also when the call returns an error string or raises.
  After the calls \<open>qs\<close> on a history \<open>h\<close> the history is \<open>h\<close> followed by \<open>qs\<close> in
  call order: starting from the empty list it is exactly \<open>qs\<close>, one entry for
  each of the calls made, and the old history is always a prefix of the new
  one.
\<close>

theorem query_history_grows:
  "snd (snd (execute_sql E conn q (Some h))) = Some (h @ [q])
   \<and> snd (snd (execute_sql_calls E conn (Some h) qs)) = Some (h @ qs)
   \<and> snd (snd (execute_sql_calls E conn (Some []) qs)) = Some qs
   \<and> length (fst (execute_sql_calls E conn (Some h) qs)) = length qs
   \<and> prefix h (h @ qs)"
  using execute_sql_history [of E conn q "Some h"] execute_sql_calls_history [of E conn h qs]
    execute_sql_calls_history [of E conn "[]" qs] execute_sql_calls_length [of E conn "Some h" qs]
  by simp

text \<open>
  Claim C4. When the statement executes and its cursor has column
  descriptors, \<open>execute_sql\<close> returns the rendering of exactly the rows that
  \<^verbatim>\<open>fetchall\<close> gives on the connection, without committing; and these rows are
  the only list of values with that rendering, so the string can be read
  back into the same rows (integers, strings, \<^verbatim>\<open>None\<close>, nested tuples and lists).
\<close>

theorem execute_sql_select:
  assumes "execute E conn query = (conn1, Inr cur)"
    and "truthy (description cur)"
    and "fetchall cur = Inr rows"
  shows "execute_sql E conn query history =
           (Inr (py_repr (PList rows)), conn1, map_option (\<lambda>h. h @ [query]) history)
       \<and> (\<forall>rows'. py_repr (PList rows') = py_repr (PList rows) \<longrightarrow> rows' = rows)"
proof -
  from assms have "execute_sql E conn query history =
      (Inr (py_repr (PList rows)), conn1, map_option (\<lambda>h. h @ [query]) history)"
    by (cases history) (simp_all add: execute_sql_def execute_sql_try_def del: py_repr.simps)
  moreover have "rows' = rows" if "py_repr (PList rows') = py_repr (PList rows)" for rows'
    using py_repr_inj [OF that] by simp
  ultimately show ?thesis by blast
qed

theorem execute_sql_select_witness:
  "execute users_engine two_users ''SELECT id, name FROM users''
     = (two_users, Inr \<lparr>description = PTuple [column_descr ''id'', column_descr ''name''],
                          fetchall = Inr (pending two_users)\<rparr>)
   \<and> pending two_users = [PTuple [PInt 1, PStr ''Alice''], PTuple [PInt 2, PStr ''Bob'']]
   \<and> execute_sql users_engine two_users ''SELECT id, name FROM users'' (Some [])
       = (Inr ''[(1, 'Alice'), (2, 'Bob')]'', two_users, Some [''SELECT id, name FROM users''])"
proof -
  let ?cur = "\<lparr>description = PTuple [column_descr ''id'', column_descr ''name''],
                fetchall = Inr (pending two_users)\<rparr>"
  have a: "execute users_engine two_users ''SELECT id, name FROM users'' = (two_users, Inr ?cur)"
    by (simp add: users_engine_def users_execute_def)
  have b: "truthy (description ?cur)" by simp
  have c: "fetchall ?cur = Inr (pending two_users)" by simp
  have p: "pending two_users = [PTuple [PInt 1, PStr ''Alice''], PTuple [PInt 2, PStr ''Bob'']]"
    by (simp add: two_users_def)
  have r: "py_repr (PList [PTuple [PInt 1, PStr ''Alice''], PTuple [PInt 2, PStr ''Bob'']])
      = ''[(1, 'Alice'), (2, 'Bob')]''"
    by (simp add: int_str_def nat_digits.simps digit_char_def str_repr_def repr_quote_def
          repr_char_def printable_def Let_def)
  from conjunct1 [OF execute_sql_select [OF a b c, of "Some []"]]
  have "execute_sql users_engine two_users ''SELECT id, name FROM users'' (Some [])
      = (Inr (py_repr (PList (pending two_users))), two_users, Some [''SELECT id, name FROM users''])"
    by simp
  with a p r show ?thesis by (simp del: py_repr.simps)
qed



section \<open>Properties of \<^verbatim>\<open>get_schema\<close>\<close>

text \<open>
  Claim C2. \<open>get_schema\<close> has no handler: on the table name \<^verbatim>\<open>a b\<close> the
  statement \<^verbatim>\<open>PRAGMA table_info(a b);\<close> is a syntax error, and the database
  error leaves the function as an exception instead of a string.
\<close>

theorem get_schema_raises:
  "fst (get_schema users_engine two_users (Some ''a b''))
     = Inl (Sqlite3_Error (''near '' @ dquote # ''b'' @ dquote # '': syntax error''))"
  by (simp add: get_schema_def users_simps)



section \<open>Properties of \<^verbatim>\<open>save_data_to_csv\<close>\<close>

text \<open>
  Claim C7. When \<^verbatim>\<open>data\<close> is not a list, for instance the string
  \<^verbatim>\<open>not a list\<close>, the tool returns its error string at once and leaves the file
  system as it was: no operation of the operating system is called.
\<close>

theorem save_data_to_csv_rejects:
  assumes "\<not> is_list data"
  shows "save_data_to_csv S w data filename
           = (Inr ''Error: Data must be a list of tuples or lists.'', w)"
  using assms by (cases data) (simp_all add: save_data_to_csv_def save_data_to_csv_try_def)

theorem save_data_to_csv_rejects_witness:
  "\<not> is_list (PStr ''not a list'')
   \<and> save_data_to_csv files_os work_fs (PStr ''not a list'') ''out''
       = (Inr ''Error: Data must be a list of tuples or lists.'', work_fs)
   \<and> files (snd (save_data_to_csv files_os work_fs (PStr ''not a list'') ''out'')) = []"
  using save_data_to_csv_rejects [of "PStr ''not a list''" files_os work_fs "''out''"]
  by (simp add: work_fs_def)

lemmas fs_simps = files_os_def fs_makedirs_def fs_write_text_def work_fs_def

text \<open>
  Claim C8, as stated, fails: data of the wrong shape is answered with a
  message that does not begin with \<^verbatim>\<open>Error saving CSV: \<close>.
\<close>

theorem save_data_to_csv_shape_counterexample:
  "fst (save_data_to_csv files_os work_fs (PStr ''not a list'') ''out'')
     = Inr ''Error: Data must be a list of tuples or lists.''
   \<and> \<not> startswith ''Error: Data must be a list of tuples or lists.'' ''Error saving CSV: ''"
  by (simp add: save_data_to_csv_def save_data_to_csv_try_def startswith_def)

text \<open>
  Claim C8, amended. Every exception raised while the file is exported (by
  \<^verbatim>\<open>os.getcwd\<close>, \<^verbatim>\<open>os.makedirs\<close>, opening and writing the file, or
  \<^verbatim>\<open>os.path.abspath\<close>) is caught and returned as \<^verbatim>\<open>Error saving CSV: \<close> followed by
  its text; data that is not a list is answered with the fixed string
  \<^verbatim>\<open>Error: Data must be a list of tuples or lists.\<close> instead.
\<close>

theorem save_data_to_csv_error_string:
  assumes "getcwd S w = Inl e
      \<or> (\<exists>cwd. getcwd S w = Inr cwd \<and> snd (makedirs S w (path_join cwd ''files'')) = Some e)
      \<or> (\<exists>cwd w1. getcwd S w = Inr cwd \<and> makedirs S w (path_join cwd ''files'') = (w1, None)
            \<and> snd (write_text S w1 (path_join (path_join cwd ''files'') (ensure_csv filename))
                      (csv_writerows (map row_of items))) = Some e)
      \<or> (\<exists>cwd w1 w2. getcwd S w = Inr cwd \<and> makedirs S w (path_join cwd ''files'') = (w1, None)
            \<and> write_text S w1 (path_join (path_join cwd ''files'') (ensure_csv filename))
                      (csv_writerows (map row_of items)) = (w2, None)
            \<and> abspath S w2 (path_join (path_join cwd ''files'') (ensure_csv filename)) = Inl e)"
  shows "fst (save_data_to_csv S w (PList items) filename) = Inr (''Error saving CSV: '' @ exn_text e)
      \<and> startswith (''Error saving CSV: '' @ exn_text e) ''Error saving CSV: ''
      \<and> (\<forall>data. \<not> is_list data \<longrightarrow>
            fst (save_data_to_csv S w data filename)
              = Inr ''Error: Data must be a list of tuples or lists.'')"
proof -
  have shape: "fst (save_data_to_csv S w data filename)
      = Inr ''Error: Data must be a list of tuples or lists.''" if "\<not> is_list data" for data
    using that by (cases data) (simp_all add: save_data_to_csv_def save_data_to_csv_try_def)
  have pre: "startswith (''Error saving CSV: '' @ exn_text e) ''Error saving CSV: ''"
    by (simp add: startswith_def)
  from assms
  have io: "fst (save_data_to_csv S w (PList items) filename) = Inr (''Error saving CSV: '' @ exn_text e)"
    by (auto simp: save_data_to_csv_def save_data_to_csv_try_def Let_def
             split: prod.splits sum.splits option.splits)
  from shape pre io show ?thesis by blast
qed

theorem save_data_to_csv_error_string_witness:
  "getcwd files_os work_fs = Inr ''/work''
   \<and> makedirs files_os work_fs (path_join ''/work'' ''files'')
       = (work_fs\<lparr>dirs := dirs work_fs @ [''/work/files'']\<rparr>, None)
   \<and> snd (write_text files_os (work_fs\<lparr>dirs := dirs work_fs @ [''/work/files'']\<rparr>)
            (path_join (path_join ''/work'' ''files'') (ensure_csv ''sub/out''))
            (csv_writerows (map row_of [PTuple [PInt 1]])))
       = Some (OSError (''[Errno 2] No such file or directory: '' @ str_repr ''/work/files/sub/out.csv''))
   \<and> fst (save_data_to_csv files_os work_fs (PList [PTuple [PInt 1]]) ''sub/out'')
       = Inr (''Error saving CSV: [Errno 2] No such file or directory: '' @ str_repr ''/work/files/sub/out.csv'')"
proof -
  let ?w1 = "work_fs\<lparr>dirs := dirs work_fs @ [''/work/files'']\<rparr>"
  let ?e = "OSError (''[Errno 2] No such file or directory: '' @ str_repr ''/work/files/sub/out.csv'')"
  have a: "getcwd files_os work_fs = Inr ''/work''" by (simp add: fs_simps)
  have j: "path_join ''/work'' ''files'' = ''/work/files''"
    by (simp add: path_join_def startswith_def endswith_def)
  have b: "makedirs files_os work_fs (path_join ''/work'' ''files'') = (?w1, None)"
    unfolding j by (simp add: fs_simps)
  have n: "path_join (path_join ''/work'' ''files'') (ensure_csv ''sub/out'') = ''/work/files/sub/out.csv''"
    unfolding j by (simp add: path_join_def startswith_def endswith_def ensure_csv_def py_lower_def lower_char_def)
  have c: "snd (write_text files_os ?w1 (path_join (path_join ''/work'' ''files'') (ensure_csv ''sub/out''))
            (csv_writerows (map row_of [PTuple [PInt 1]]))) = Some ?e"
    unfolding n by (simp add: fs_simps dirname_def)
  from a b c have hyp: "getcwd files_os work_fs = Inl ?e
      \<or> (\<exists>cwd. getcwd files_os work_fs = Inr cwd \<and> snd (makedirs files_os work_fs (path_join cwd ''files'')) = Some ?e)
      \<or> (\<exists>cwd w1. getcwd files_os work_fs = Inr cwd \<and> makedirs files_os work_fs (path_join cwd ''files'') = (w1, None)
            \<and> snd (write_text files_os w1 (path_join (path_join cwd ''files'') (ensure_csv ''sub/out''))
                      (csv_writerows (map row_of [PTuple [PInt 1]]))) = Some ?e)
      \<or> (\<exists>cwd w1 w2. getcwd files_os work_fs = Inr cwd \<and> makedirs files_os work_fs (path_join cwd ''files'') = (w1, None)
            \<and> write_text files_os w1 (path_join (path_join cwd ''files'') (ensure_csv ''sub/out''))
                      (csv_writerows (map row_of [PTuple [PInt 1]])) = (w2, None)
            \<and> abspath files_os w2 (path_join (path_join cwd ''files'') (ensure_csv ''sub/out'')) = Inl ?e)"
    by blast
  from save_data_to_csv_error_string [OF hyp]
  have "fst (save_data_to_csv files_os work_fs (PList [PTuple [PInt 1]]) ''sub/out'')
       = Inr (''Error saving CSV: '' @ exn_text ?e)"
    by (rule conjunct1)
  with a b c show ?thesis by simp
qed

subsection \<open>Where the file is written\<close>

lemma endswith_append_same: "endswith (a @ p) p"
  by (simp add: endswith_def)

lemma py_lower_append: "py_lower (a @ b) = py_lower a @ py_lower b"
  by (simp add: py_lower_def)

lemma py_lower_csv: "py_lower ''.csv'' = ''.csv''"
  by (simp add: py_lower_def lower_char_def)

lemma ensure_csv_suffix: "endswith (py_lower (ensure_csv filename)) ''.csv''"
  by (simp add: ensure_csv_def py_lower_append py_lower_csv endswith_append_same)

lemma ensure_csv_slash: "CHR ''/'' \<notin> set filename \<Longrightarrow> CHR ''/'' \<notin> set (ensure_csv filename)"
  by (simp add: ensure_csv_def)

lemma base_dir_files: "\<exists>p. path_join cwd ''files'' = p @ ''files''"
  by (simp add: path_join_def startswith_def)

lemma path_join_child:
  assumes "CHR ''/'' \<notin> set name"
  shows "path_join (p @ ''files'') name = p @ ''files'' @ ''/'' @ name"
proof -
  from assms have "\<not> startswith name ''/''"
    by (cases name) (auto simp: startswith_def)
  moreover have "\<not> endswith (p @ ''files'') ''/''"
    by (simp add: endswith_def)
  ultimately show ?thesis by (simp add: path_join_def)
qed

lemma dirname_child:
  assumes "CHR ''/'' \<notin> set name"
  shows "dirname (p @ ''files'' @ ''/'' @ name) = p @ ''files''"
proof -
  from assms have "dropWhile (\<lambda>c. c \<noteq> CHR ''/'') (rev name @ ''/'' @ rev (p @ ''files''))
      = ''/'' @ rev (p @ ''files'')"
    by (simp add: dropWhile_append)
  then have head: "rev (dropWhile (\<lambda>c. c \<noteq> CHR ''/'') (rev (p @ ''files'' @ ''/'' @ name)))
      = p @ ''files/''"
    by simp
  have "p @ ''files/'' \<noteq> replicate (length (p @ ''files/'')) CHR ''/''"
  proof
    assume "p @ ''files/'' = replicate (length (p @ ''files/'')) CHR ''/''"
    then have "set (p @ ''files/'') \<subseteq> {CHR ''/''}"
      by (metis set_replicate_conv_if empty_subsetI subset_refl)
    then show False by simp
  qed
  then show ?thesis
    unfolding dirname_def head by (simp add: Let_def)
qed

lemma isabs_child: "isabs cwd \<Longrightarrow> path_join cwd ''files'' = p @ ''files'' \<Longrightarrow> isabs (p @ ''files'' @ ''/'' @ name)"
  by (cases cwd) (auto simp: isabs_def startswith_def path_join_def split: if_splits)

lemma csv_example:
  "csv_writerows (map row_of [PTuple [PInt 1, PStr ''Alice''], PTuple [PInt 2, PStr ''Bob'']])
     = ''1,Alice'' @ [CHR 0x0D, CHR 0x0A] @ ''2,Bob'' @ [CHR 0x0D, CHR 0x0A]"
  by (simp add: csv_writerows_def csv_row_def csv_field_def csv_quote_def int_str_def
        nat_digits.simps digit_char_def)

lemma ensure_csv_out: "ensure_csv ''out'' = ''out.csv''"
  by (simp add: ensure_csv_def endswith_def py_lower_def)

lemma normpath_tmp: "normpath ''/tmp/out.csv'' = ''/tmp/out.csv''"
  by (simp add: normpath_def startswith_def Let_def)

lemma normpath_work: "normpath ''/work/files/out.csv'' = ''/work/files/out.csv''"
  by (simp add: normpath_def startswith_def Let_def)

text \<open>
  Claim C6, as stated, fails: a file name that is an absolute path is written
  where it says, not into the directory \<^verbatim>\<open>files\<close> under the working directory.
\<close>

theorem save_data_to_csv_writes_counterexample:
  "save_data_to_csv files_os work_fs
       (PList [PTuple [PInt 1, PStr ''Alice''], PTuple [PInt 2, PStr ''Bob'']]) ''/tmp/out''
     = (Inr ''Data saved successfully to: /tmp/out.csv'',
        work_fs\<lparr>dirs := dirs work_fs @ [''/work/files''],
                files := [(''/tmp/out.csv'', ''1,Alice'' @ [CHR 0x0D, CHR 0x0A] @ ''2,Bob'' @ [CHR 0x0D, CHR 0x0A])]\<rparr>)
   \<and> dirname ''/tmp/out.csv'' = ''/tmp''
   \<and> path_join (workdir work_fs) ''files'' = ''/work/files''"
proof -
  have name: "ensure_csv ''/tmp/out'' = ''/tmp/out.csv''"
    by (simp add: ensure_csv_def endswith_def py_lower_def lower_char_def)
  have base: "path_join ''/work'' ''files'' = ''/work/files''"
    by (simp add: path_join_def startswith_def endswith_def)
  have file_path: "path_join ''/work/files'' ''/tmp/out.csv'' = ''/tmp/out.csv''"
    by (simp add: path_join_def startswith_def)
  have dir: "dirname ''/tmp/out.csv'' = ''/tmp''"
    by (simp add: dirname_def)
  have "save_data_to_csv files_os work_fs
       (PList [PTuple [PInt 1, PStr ''Alice''], PTuple [PInt 2, PStr ''Bob'']]) ''/tmp/out''
     = (Inr ''Data saved successfully to: /tmp/out.csv'',
        work_fs\<lparr>dirs := dirs work_fs @ [''/work/files''],
                files := [(''/tmp/out.csv'', ''1,Alice'' @ [CHR 0x0D, CHR 0x0A] @ ''2,Bob'' @ [CHR 0x0D, CHR 0x0A])]\<rparr>)"
    by (simp add: save_data_to_csv_def save_data_to_csv_try_def name fs_simps base file_path dir
          csv_example abspath_def isabs_def startswith_def normpath_tmp Let_def del: row_of.simps map_eq_conv list.map)
  with dir base show ?thesis by (simp add: work_fs_def)
qed

text \<open>
  Claim C6, amended. For a list \<open>items\<close> and a file name without a slash, when
  the working directory is known, \<^verbatim>\<open>os.makedirs\<close> on its subdirectory \<^verbatim>\<open>files\<close>
  and the writing of the file raise nothing, the tool writes the rows in CSV
  encoding to the file of that name in that directory, with \<^verbatim>\<open>.csv\<close> appended
  iff the name does not end with it in any letter case, and returns the
  success message with the normalised absolute path of the file. For the
  rows \<^verbatim>\<open>(1, "Alice")\<close>, \<^verbatim>\<open>(2, "Bob")\<close> and the name \<^verbatim>\<open>out\<close> the file is \<^verbatim>\<open>out.csv\<close>
  with the lines \<^verbatim>\<open>1,Alice\<close> and \<^verbatim>\<open>2,Bob\<close>.
\<close>

theorem save_data_to_csv_writes:
  assumes "CHR ''/'' \<notin> set filename"
    and "getcwd S w = Inr cwd"
    and "isabs cwd"
    and "makedirs S w (path_join cwd ''files'') = (w1, None)"
    and "write_text S w1 (path_join cwd ''files'' @ ''/'' @ ensure_csv filename)
           (csv_writerows (map row_of items)) = (w2, None)"
  shows "save_data_to_csv S w (PList items) filename
           = (Inr (''Data saved successfully to: ''
                     @ normpath (path_join cwd ''files'' @ ''/'' @ ensure_csv filename)), w2)
      \<and> dirname (path_join cwd ''files'' @ ''/'' @ ensure_csv filename) = path_join cwd ''files''
      \<and> ensure_csv filename
           = (if endswith (py_lower filename) ''.csv'' then filename else filename @ ''.csv'')
      \<and> endswith (py_lower (ensure_csv filename)) ''.csv''
      \<and> ensure_csv ''out'' = ''out.csv''
      \<and> csv_writerows (map row_of [PTuple [PInt 1, PStr ''Alice''], PTuple [PInt 2, PStr ''Bob'']])
           = ''1,Alice'' @ [CHR 0x0D, CHR 0x0A] @ ''2,Bob'' @ [CHR 0x0D, CHR 0x0A]"
proof -
  obtain p where base: "path_join cwd ''files'' = p @ ''files''"
    using base_dir_files by blast
  from assms(1) have name: "CHR ''/'' \<notin> set (ensure_csv filename)"
    by (rule ensure_csv_slash)
  have file_path: "path_join (path_join cwd ''files'') (ensure_csv filename)
      = path_join cwd ''files'' @ ''/'' @ ensure_csv filename"
    unfolding base using path_join_child [OF name] by simp
  have abs: "isabs (path_join cwd ''files'' @ ''/'' @ ensure_csv filename)"
    unfolding base using isabs_child [OF assms(3) base] by simp
  have dir: "dirname (path_join cwd ''files'' @ ''/'' @ ensure_csv filename) = path_join cwd ''files''"
    unfolding base using dirname_child [OF name] by simp
  have run: "save_data_to_csv S w (PList items) filename
           = (Inr (''Data saved successfully to: ''
                     @ normpath (path_join cwd ''files'' @ ''/'' @ ensure_csv filename)), w2)"
    using assms(2,4,5) abs
    by (simp add: save_data_to_csv_def save_data_to_csv_try_def Let_def file_path abspath_def)
  have ext: "ensure_csv filename
           = (if endswith (py_lower filename) ''.csv'' then filename else filename @ ''.csv'')"
    by (simp add: ensure_csv_def)
  from run dir ext ensure_csv_suffix ensure_csv_out csv_example show ?thesis
    by blast
qed

theorem save_data_to_csv_writes_witness:
  "CHR ''/'' \<notin> set ''out''
   \<and> getcwd files_os work_fs = Inr ''/work''
   \<and> isabs ''/work''
   \<and> save_data_to_csv files_os work_fs
         (PList [PTuple [PInt 1, PStr ''Alice''], PTuple [PInt 2, PStr ''Bob'']]) ''out''
       = (Inr ''Data saved successfully to: /work/files/out.csv'',
          work_fs\<lparr>dirs := dirs work_fs @ [''/work/files''],
                  files := [(''/work/files/out.csv'',
                             ''1,Alice'' @ [CHR 0x0D, CHR 0x0A] @ ''2,Bob'' @ [CHR 0x0D, CHR 0x0A])]\<rparr>)"
proof -
  let ?items = "[PTuple [PInt 1, PStr ''Alice''], PTuple [PInt 2, PStr ''Bob'']]"
  let ?w1 = "work_fs\<lparr>dirs := dirs work_fs @ [''/work/files'']\<rparr>"
  let ?text = "''1,Alice'' @ [CHR 0x0D, CHR 0x0A] @ ''2,Bob'' @ [CHR 0x0D, CHR 0x0A]"
  let ?w2 = "work_fs\<lparr>dirs := dirs work_fs @ [''/work/files''],
                     files := [(''/work/files/out.csv'', ?text)]\<rparr>"
  have a: "CHR ''/'' \<notin> set ''out''" by simp
  have b: "getcwd files_os work_fs = Inr ''/work''" by (simp add: fs_simps)
  have c: "isabs ''/work''" by (simp add: isabs_def startswith_def)
  have base: "path_join ''/work'' ''files'' = ''/work/files''"
    by (simp add: path_join_def startswith_def endswith_def)
  have d: "makedirs files_os work_fs (path_join ''/work'' ''files'') = (?w1, None)"
    unfolding base by (simp add: fs_simps)
  have dir: "dirname ''/work/files/out.csv'' = ''/work/files''"
    by (simp add: dirname_def)
  have e: "write_text files_os ?w1 (path_join ''/work'' ''files'' @ ''/'' @ ensure_csv ''out'')
             (csv_writerows (map row_of ?items)) = (?w2, None)"
    unfolding base ensure_csv_out csv_example using dir by (simp add: fs_simps)
  from save_data_to_csv_writes [OF a b c d e]
  have "save_data_to_csv files_os work_fs (PList ?items) ''out''
      = (Inr (''Data saved successfully to: ''
                @ normpath (path_join ''/work'' ''files'' @ ''/'' @ ensure_csv ''out'')), ?w2)"
    by (rule conjunct1)
  then have "save_data_to_csv files_os work_fs (PList ?items) ''out''
      = (Inr ''Data saved successfully to: /work/files/out.csv'', ?w2)"
    unfolding base ensure_csv_out using normpath_work by simp
  with a b c show ?thesis by simp
qed

section \<open>More on \<^verbatim>\<open>get_schema\<close>\<close>





end
